theory Spec2Isabelle
  imports Main "HOL-Library.Sublist"
begin

section \<open>Token grammar (src/core/token-engine.ts)\<close>

text \<open>
  The engine recognises placeholders with the regular expression
  \<^verbatim>\<open>\[VAULT:([a-zA-Z0-9_-]+):([a-zA-Z0-9_-]+)(?:\.([a-zA-Z0-9_-]+))?\]\<close>.
  Texts are character lists. The three name groups range over one character class.
\<close>

definition isTokenChar :: "char \<Rightarrow> bool" where
  "isTokenChar c \<longleftrightarrow>
     c \<in> set (''abcdefghijklmnopqrstuvwxyz'' @ ''ABCDEFGHIJKLMNOPQRSTUVWXYZ'' @ ''0123456789'' @ ''_-'')"

text \<open>
  The interface \<open>VaultToken\<close> of src/types/index.ts. The members \<open>id\<close> and \<open>createdAt\<close> are
  drawn from the clock and the random generator and are never read again; they are left out.
\<close>

record VaultToken =
  raw :: string
  namespace :: string
  credential :: string
  field :: "string option"
  accessCount :: nat

definition stripPrefix :: "string \<Rightarrow> string \<Rightarrow> string option" where
  "stripPrefix p s = (if prefix p s then Some (drop (length p) s) else None)"

text \<open>
  One attempt of the regular expression at the head of a text: the literal \<open>[VAULT:\<close>, a
  greedy non-empty run of name characters, a colon, a second run, then either \<open>]\<close> or a dot,
  a third run and \<open>]\<close>. The separators are outside the character class, so giving back
  characters of a run can never turn a failed attempt into a match, and the longest run is the
  only candidate. The result is the token and the text after it.
\<close>

definition matchToken :: "string \<Rightarrow> (VaultToken \<times> string) option" where
  "matchToken s =
     (case stripPrefix ''[VAULT:'' s of
        None \<Rightarrow> None
      | Some s1 \<Rightarrow>
          let ns = takeWhile isTokenChar s1; s2 = dropWhile isTokenChar s1 in
          if ns = [] \<or> s2 = [] \<or> hd s2 \<noteq> CHR '':'' then None
          else
            let s3 = tl s2; cred = takeWhile isTokenChar s3; s4 = dropWhile isTokenChar s3 in
            if cred = [] \<or> s4 = [] then None
            else if hd s4 = CHR ''.'' then
              let s5 = tl s4; fld = takeWhile isTokenChar s5; s6 = dropWhile isTokenChar s5 in
              if fld = [] \<or> s6 = [] \<or> hd s6 \<noteq> CHR '']'' then None
              else Some (\<lparr>raw = ''[VAULT:'' @ ns @ '':'' @ cred @ ''.'' @ fld @ '']'',
                          namespace = ns, credential = cred, field = Some fld,
                          accessCount = 0\<rparr>, tl s6)
            else if hd s4 = CHR '']'' then
              Some (\<lparr>raw = ''[VAULT:'' @ ns @ '':'' @ cred @ '']'',
                     namespace = ns, credential = cred, field = None,
                     accessCount = 0\<rparr>, tl s4)
            else None)"

lemma stripPrefix_Some: "stripPrefix p s = Some r \<Longrightarrow> s = p @ r"
  by (auto simp: stripPrefix_def prefix_def split: if_splits)

lemma matchToken_shorter:
  assumes "matchToken s = Some (t, r)"
  shows "length r < length s"
proof -
  have dw: "length (dropWhile isTokenChar xs) \<le> length xs" for xs
    by (simp add: length_dropWhile_le)
  have tl_lt: "xs \<noteq> [] \<Longrightarrow> length (tl xs) < length xs" for xs :: string
    by (cases xs) auto
  from assms obtain s1 where s1: "stripPrefix ''[VAULT:'' s = Some s1"
    by (auto simp: matchToken_def split: option.splits)
  then have ls: "length s1 < length s"
    by (auto dest: stripPrefix_Some)
  define s2 where "s2 = dropWhile isTokenChar s1"
  define s4 where "s4 = dropWhile isTokenChar (tl s2)"
  define s6 where "s6 = dropWhile isTokenChar (tl s4)"
  have l2: "length s2 \<le> length s1" unfolding s2_def by (rule dw)
  have l4: "length s4 \<le> length s2" unfolding s4_def
    using dw [of "tl s2"] by (cases s2) auto
  have l6: "length s6 \<le> length s4" unfolding s6_def
    using dw [of "tl s4"] by (cases s4) auto
  from assms s1 have "(r = tl s4 \<and> s4 \<noteq> []) \<or> (r = tl s6 \<and> s6 \<noteq> [])"
    by (auto simp: matchToken_def Let_def s2_def s4_def s6_def split: if_splits)
  with l2 l4 l6 ls tl_lt [of s4] tl_lt [of s6] show ?thesis by auto
qed

text \<open>
  \<open>text.matchAll(TOKEN_PATTERN)\<close> with the global flag: the matches from left to right, each
  search resuming right after the previous match, one position further after a failed attempt.
  \<open>extractTokens\<close> pushes one token per match.
\<close>

function extractTokens :: "string \<Rightarrow> VaultToken list" where
  "extractTokens [] = []"
| "extractTokens (c # cs) =
     (case matchToken (c # cs) of
        Some (t, r) \<Rightarrow> t # extractTokens r
      | None \<Rightarrow> extractTokens cs)"
  by pat_completeness auto
termination
  by (relation "measure length") (auto dest: matchToken_shorter)

text \<open>
  \<open>validateTokenFormat\<close> tests the same pattern without the global flag and without anchors:
  \<open>pattern.test\<close> succeeds when the attempt succeeds at some position.
\<close>

fun validateTokenFormat :: "string \<Rightarrow> bool" where
  "validateTokenFormat [] = False"
| "validateTokenFormat (c # cs) = (matchToken (c # cs) \<noteq> None \<or> validateTokenFormat cs)"

section \<open>Credential values and errors\<close>

text \<open>
  The engine receives its credentials as \<open>Map<string, any>\<close>; the servers fill that map with
  \<open>JSON.parse\<close> of the stored payload. \<open>json\<close> models the parsed payloads that are null, a
  boolean, a string or a plain object (member list, keys distinct) of such values; numbers
  and arrays are left out. \<open>jsvalue\<close> adds what reading a member can yield besides a payload:
  \<open>undefined\<close>, and a member that a plain object inherits from \<open>Object.prototype\<close>.
\<close>

datatype json = JNull | JBool bool | JString string | JObject "(string \<times> json) list"

datatype jsvalue = Data json | Undefined | Native string

text \<open>
  \<open>VaultError\<close> of src/types/index.ts with its message and code, the errors the
  JavaScript runtime itself throws in the modelled code, and a constraint failure of the
  database driver.
\<close>

datatype error = VaultError string string | TypeError | SyntaxError | RangeError | SqliteError

definition credentialNotFound :: "string \<Rightarrow> error" where
  "credentialNotFound key = VaultError (''Credential not found: '' @ key) ''CREDENTIAL_NOT_FOUND''"

definition authenticationFailed :: "string \<Rightarrow> error" where
  "authenticationFailed msg = VaultError msg ''AUTH_FAILED''"

definition fieldNotFound :: "string \<Rightarrow> string \<Rightarrow> error" where
  "fieldNotFound f key =
     VaultError (''Field '' @ [CHR 0x27] @ f @ [CHR 0x27] @ '' not found in credential ''
                 @ [CHR 0x27] @ key @ [CHR 0x27]) ''FIELD_NOT_FOUND''"

text \<open>JavaScript truthiness, as \<open>!credential\<close> tests it.\<close>

fun truthy :: "json \<Rightarrow> bool" where
  "truthy JNull = False"
| "truthy (JBool b) = b"
| "truthy (JString s) = (s \<noteq> [])"
| "truthy (JObject ms) = True"

text \<open>
  The properties every plain object inherits from \<open>Object.prototype\<close>. The operator \<open>in\<close>
  and a member read both follow the prototype chain, own members first.
\<close>

definition objectPrototypeMembers :: "string list" where
  "objectPrototypeMembers =
     [''constructor'', ''__defineGetter__'', ''__defineSetter__'', ''hasOwnProperty'',
      ''__lookupGetter__'', ''__lookupSetter__'', ''isPrototypeOf'', ''propertyIsEnumerable'',
      ''toString'', ''valueOf'', ''__proto__'', ''toLocaleString'']"

definition hasProperty :: "string \<Rightarrow> (string \<times> json) list \<Rightarrow> bool" where
  "hasProperty f ms \<longleftrightarrow> map_of ms f \<noteq> None \<or> f \<in> set objectPrototypeMembers"

definition getMember :: "(string \<times> json) list \<Rightarrow> string \<Rightarrow> jsvalue" where
  "getMember ms f =
     (case map_of ms f of
        Some v \<Rightarrow> Data v
      | None \<Rightarrow> if f \<in> set objectPrototypeMembers then Native f else Undefined)"

section \<open>Resolution and substitution (src/core/token-engine.ts)\<close>

definition credentialKey :: "VaultToken \<Rightarrow> string" where
  "credentialKey token = namespace token @ '':'' @ credential token"

text \<open>\<open>if (token.field)\<close>: the selector counts when it is present and not the empty string.\<close>

definition selector :: "VaultToken \<Rightarrow> string option" where
  "selector token = (case field token of None \<Rightarrow> None | Some f \<Rightarrow> if f = [] then None else Some f)"

text \<open>
  \<open>resolveToken\<close>. A missing or falsy map entry throws \<open>CREDENTIAL_NOT_FOUND\<close>. With a
  selector, \<open>typeof credential !== 'object' || !(token.field in credential)\<close> throws
  \<open>FIELD_NOT_FOUND\<close>; otherwise the member is read. Without a selector a string is taken as
  it is and anything else contributes its member \<open>value\<close> (a boolean has none). The audit
  call only writes a console line.
\<close>

definition resolveToken ::
    "VaultToken \<Rightarrow> (string \<rightharpoonup> json) \<Rightarrow> error + (string \<times> jsvalue)" where
  "resolveToken token credentials =
     (let key = credentialKey token in
      case credentials key of
        None \<Rightarrow> Inl (credentialNotFound key)
      | Some cred \<Rightarrow>
          if \<not> truthy cred then Inl (credentialNotFound key)
          else
            (case selector token of
               Some f \<Rightarrow>
                 (case cred of
                    JObject ms \<Rightarrow>
                      if hasProperty f ms then Inr (raw token, getMember ms f)
                      else Inl (fieldNotFound f key)
                  | _ \<Rightarrow> Inl (fieldNotFound f key))
             | None \<Rightarrow>
                 Inr (raw token,
                      case cred of
                        JString s \<Rightarrow> Data (JString s)
                      | JObject ms \<Rightarrow> getMember ms ''value''
                      | _ \<Rightarrow> Undefined)))"

text \<open>
  \<open>Promise.all(tokens.map(resolveToken))\<close>: every throw of \<open>resolveToken\<close> happens before its
  first \<open>await\<close>, so the rejection that wins is that of the first failing token.
\<close>

fun resolveAll ::
    "VaultToken list \<Rightarrow> (string \<rightharpoonup> json) \<Rightarrow> error + (string \<times> jsvalue) list" where
  "resolveAll [] credentials = Inr []"
| "resolveAll (t # ts) credentials =
     (case resolveToken t credentials of
        Inl e \<Rightarrow> Inl e
      | Inr p \<Rightarrow> (case resolveAll ts credentials of Inl e \<Rightarrow> Inl e | Inr ps \<Rightarrow> Inr (p # ps)))"

subsection \<open>\<open>String.prototype.replace\<close> with a string pattern\<close>

text \<open>The text before and after the first occurrence of a pattern (\<open>indexOf\<close>).\<close>

fun indexOfSplit :: "string \<Rightarrow> string \<Rightarrow> (string \<times> string) option" where
  "indexOfSplit pat [] = (if pat = [] then Some ([], []) else None)"
| "indexOfSplit pat (c # cs) =
     (if prefix pat (c # cs) then Some ([], drop (length pat) (c # cs))
      else map_option (\<lambda>(b, a). (c # b, a)) (indexOfSplit pat cs))"

text \<open>
  \<open>GetSubstitution\<close> for a string pattern (no capture groups): \<open>$$\<close> is a dollar sign,
  \<open>$&\<close> the matched text, \<open>$`\<close> the text before the match, \<open>$'\<close> the text after it; every
  other character, a lone dollar sign included, stands for itself.
\<close>

fun getSubstitution :: "string \<Rightarrow> string \<Rightarrow> string \<Rightarrow> string \<Rightarrow> string" where
  "getSubstitution m b a [] = []"
| "getSubstitution m b a [c] = [c]"
| "getSubstitution m b a (c # d # r) =
     (if c = CHR ''$'' then
        (if d = CHR ''$'' then CHR ''$'' # getSubstitution m b a r
         else if d = CHR ''&'' then m @ getSubstitution m b a r
         else if d = CHR 0x60 then b @ getSubstitution m b a r
         else if d = CHR 0x27 then a @ getSubstitution m b a r
         else c # getSubstitution m b a (d # r))
      else c # getSubstitution m b a (d # r))"

text \<open>
  The replacement value is not always a string. A callable value is called with the match
  (\<open>this\<close> undefined) and its result converted to a string; anything else is converted by
  \<open>ToString\<close> before the search. Of the inherited members all but \<open>__proto__\<close> (the prototype
  object itself) are functions. A plain object converts to \<open>[object Object]\<close> unless an own
  member \<open>toString\<close> hides the inherited function, in which case no primitive is found.
\<close>

definition callable :: "jsvalue \<Rightarrow> bool" where
  "callable v = (case v of Native n \<Rightarrow> n \<noteq> ''__proto__'' | _ \<Rightarrow> False)"

definition toStringJS :: "jsvalue \<Rightarrow> error + string" where
  "toStringJS v =
     (case v of
        Undefined \<Rightarrow> Inr ''undefined''
      | Native n \<Rightarrow> Inr ''[object Object]''
      | Data JNull \<Rightarrow> Inr ''null''
      | Data (JBool b) \<Rightarrow> Inr (if b then ''true'' else ''false'')
      | Data (JString s) \<Rightarrow> Inr s
      | Data (JObject ms) \<Rightarrow>
          if map_of ms ''toString'' = None then Inr ''[object Object]'' else Inl TypeError)"

definition callNative :: "string \<Rightarrow> string \<Rightarrow> error + string" where
  "callNative n matched =
     (if n = ''constructor'' then Inr matched
      else if n = ''toString'' then Inr ''[object Undefined]''
      else if n = ''isPrototypeOf'' then Inr ''false''
      else Inl TypeError)"

definition jsReplace :: "string \<Rightarrow> string \<Rightarrow> jsvalue \<Rightarrow> error + string" where
  "jsReplace s pat v =
     (if callable v then
        (case indexOfSplit pat s of
           None \<Rightarrow> Inr s
         | Some (b, a) \<Rightarrow>
             (case callNative (case v of Native n \<Rightarrow> n | _ \<Rightarrow> []) pat of
                Inl e \<Rightarrow> Inl e
              | Inr r \<Rightarrow> Inr (b @ r @ a)))
      else
        (case toStringJS v of
           Inl e \<Rightarrow> Inl e
         | Inr repl \<Rightarrow>
             (case indexOfSplit pat s of
                None \<Rightarrow> Inr s
              | Some (b, a) \<Rightarrow> Inr (b @ getSubstitution pat b a repl @ a))))"

text \<open>The loop \<open>for (const [token, value] of substitutions) result = result.replace(token, value)\<close>.\<close>

fun applySubstitutions :: "string \<Rightarrow> (string \<times> jsvalue) list \<Rightarrow> error + string" where
  "applySubstitutions result [] = Inr result"
| "applySubstitutions result ((token, v) # ps) =
     (case jsReplace result token v of
        Inl e \<Rightarrow> Inl e
      | Inr result' \<Rightarrow> applySubstitutions result' ps)"

text \<open>
  \<open>substituteTokens\<close>; a thrown error is the rejected promise. The returned
  \<open>processingTimeMs\<close> is a clock reading and is not modelled.
\<close>

definition substituteTokens :: "string \<Rightarrow> (string \<rightharpoonup> json) \<Rightarrow> error + string" where
  "substituteTokens text credentials =
     (case resolveAll (extractTokens text) credentials of
        Inl e \<Rightarrow> Inl e
      | Inr substitutions \<Rightarrow> applySubstitutions text substitutions)"

section \<open>The grant table (VaultDB, SQLite layer)\<close>

text \<open>
  The rows of the tables \<open>credentials\<close> and \<open>access_grants\<close>, with the columns of the schema.
  The table of grants has no column for an expiry.
\<close>

record Credential =
  cred_id :: string
  cred_namespace :: string
  cred_name :: string
  cred_type :: string
  cred_description :: string
  cred_sensitivityLevel :: string
  encryptedData :: string
  encryptionKeyId :: string
  cred_createdAt :: string
  cred_updatedAt :: string

record grant_row =
  grant_id :: string
  credential_id :: "string option"
  agent_id :: "string option"
  uses_remaining :: "int option"
  is_active :: int
  created_at :: string

text \<open>
  The grant object the servers build. Times are milliseconds since the epoch; the in-memory
  server stores the expiry as the ISO rendering of such a time.
\<close>

record AccessGrant =
  g_id :: string
  credentialId :: "string option"
  agentId :: "string option"
  purpose :: string
  grantedAt :: int
  expiresAt :: "int option"
  usesRemaining :: "int option"
  isActive :: bool

record VaultDB =
  db_credentials :: "Credential list"
  db_access_grants :: "grant_row list"

definition getCredential :: "VaultDB \<Rightarrow> string \<Rightarrow> string \<Rightarrow> Credential option" where
  "getCredential db ns name =
     find (\<lambda>r. cred_namespace r = ns \<and> cred_name r = name) (db_credentials db)"

text \<open>
  \<open>createGrant\<close> inserts one row with the columns id, credential_id, agent_id,
  uses_remaining, is_active and created_at; the expiry of the grant object is not among
  them. The insert fails on a primary key that exists and on a credential_id that refers to
  no credential (the driver enforces foreign keys).
\<close>

definition createGrant :: "VaultDB \<Rightarrow> AccessGrant \<Rightarrow> string \<Rightarrow> error + VaultDB" where
  "createGrant db grant now =
     (if g_id grant \<in> grant_id ` set (db_access_grants db) then Inl SqliteError
      else if (case credentialId grant of
                 None \<Rightarrow> False
               | Some c \<Rightarrow> c \<notin> cred_id ` set (db_credentials db)) then Inl SqliteError
      else Inr (db\<lparr>db_access_grants := db_access_grants db @
                  [\<lparr>grant_id = g_id grant, credential_id = credentialId grant,
                    agent_id = agentId grant, uses_remaining = usesRemaining grant,
                    is_active = (if isActive grant then 1 else 0), created_at = now\<rparr>]\<rparr>))"

text \<open>
  \<open>VaultDB.hasAccess\<close> counts the rows of the pair with \<open>is_active = 1\<close>. The statement is
  a \<open>SELECT\<close>: the database after the call is the database before it.
\<close>

definition VaultDB_hasAccess :: "VaultDB \<Rightarrow> string \<Rightarrow> string \<Rightarrow> bool \<times> VaultDB" where
  "VaultDB_hasAccess db agentId' credentialId' =
     (0 < length (filter (\<lambda>g. agent_id g = Some agentId' \<and> credential_id g = Some credentialId'
                               \<and> is_active g = 1) (db_access_grants db)), db)"

section \<open>The tool-call server backed by the database (src/servers/mcp-server.js)\<close>

text \<open>\<open>String.prototype.split\<close> at every colon.\<close>

fun splitColon :: "string \<Rightarrow> string list" where
  "splitColon [] = [[]]"
| "splitColon (c # cs) =
     (if c = CHR '':'' then [] # splitColon cs
      else (case splitColon cs of p # ps \<Rightarrow> (c # p) # ps | [] \<Rightarrow> [[c]]))"

text \<open>
  \<open>hasAccess\<close> of the server: the key is split, the credential looked up, and the grant
  table asked with the credential's id. A key without a colon leaves \<open>name\<close> undefined; the
  handlers never build such a key, and the lookup is taken to find no row.
\<close>

definition dbServer_hasAccess :: "VaultDB \<Rightarrow> string \<Rightarrow> string \<Rightarrow> bool" where
  "dbServer_hasAccess db agentId' credentialKey' =
     (case splitColon credentialKey' of
        ns # name # _ \<Rightarrow>
          (case getCredential db ns name of
             None \<Rightarrow> False
           | Some c \<Rightarrow> if cred_id c = [] then False
                       else fst (VaultDB_hasAccess db agentId' (cred_id c)))
      | _ \<Rightarrow> False)"

text \<open>
  The map of parsed payloads the handler builds for the engine. \<open>JSON.parse\<close> is the
  runtime's; it is a parameter \<open>parse\<close>, and it may throw.
\<close>

fun dbServer_credentialsMap ::
    "(string \<Rightarrow> error + json) \<Rightarrow> VaultDB \<Rightarrow> VaultToken list \<Rightarrow> (string \<rightharpoonup> json)
       \<Rightarrow> error + (string \<rightharpoonup> json)" where
  "dbServer_credentialsMap parse db [] m = Inr m"
| "dbServer_credentialsMap parse db (t # ts) m =
     (case getCredential db (namespace t) (credential t) of
        None \<Rightarrow> dbServer_credentialsMap parse db ts m
      | Some c \<Rightarrow>
          (case parse (encryptedData c) of
             Inl e \<Rightarrow> Inl e
           | Inr v \<Rightarrow> dbServer_credentialsMap parse db ts (m(credentialKey t \<mapsto> v))))"

text \<open>
  \<open>handleTokenSubstitution\<close>: a text without tokens is returned as it is; the first token
  without access throws \<open>AUTH_FAILED\<close> before anything is read; otherwise the engine
  substitutes. The result is the text of the response, or the error thrown.
\<close>

definition dbServer_handleTokenSubstitution ::
    "(string \<Rightarrow> error + json) \<Rightarrow> VaultDB \<Rightarrow> string \<Rightarrow> string \<Rightarrow> error + string" where
  "dbServer_handleTokenSubstitution parse db text agent =
     (let tokens = extractTokens text in
      if tokens = [] then Inr text
      else
        (case find (\<lambda>t. \<not> dbServer_hasAccess db agent (credentialKey t)) tokens of
           Some t \<Rightarrow> Inl (authenticationFailed (''No access to '' @ credentialKey t))
         | None \<Rightarrow>
             (case dbServer_credentialsMap parse db tokens Map.empty of
                Inl e \<Rightarrow> Inl e
              | Inr m \<Rightarrow> substituteTokens text m)))"

section \<open>The tool-call server with in-memory maps (MCP server, TypeScript source)\<close>

record memServer =
  mem_credentials :: "string \<rightharpoonup> Credential"
  mem_grants :: "string \<rightharpoonup> AccessGrant"

text \<open>\<open>hasAccess\<close> of this server: \<open>return true; // For now, allow all access\<close>.\<close>

definition memServer_hasAccess :: "memServer \<Rightarrow> string \<Rightarrow> string \<Rightarrow> bool" where
  "memServer_hasAccess srv agentId' credentialKey' = True"

fun memServer_credentialsMap ::
    "(string \<Rightarrow> error + json) \<Rightarrow> memServer \<Rightarrow> VaultToken list \<Rightarrow> (string \<rightharpoonup> json)
       \<Rightarrow> error + (string \<rightharpoonup> json)" where
  "memServer_credentialsMap parse srv [] m = Inr m"
| "memServer_credentialsMap parse srv (t # ts) m =
     (case mem_credentials srv (credentialKey t) of
        None \<Rightarrow> memServer_credentialsMap parse srv ts m
      | Some c \<Rightarrow>
          (case parse (encryptedData c) of
             Inl e \<Rightarrow> Inl e
           | Inr v \<Rightarrow> memServer_credentialsMap parse srv ts (m(credentialKey t \<mapsto> v))))"

definition memServer_handleTokenSubstitution ::
    "(string \<Rightarrow> error + json) \<Rightarrow> memServer \<Rightarrow> string \<Rightarrow> string \<Rightarrow> error + string" where
  "memServer_handleTokenSubstitution parse srv text agent =
     (let tokens = extractTokens text in
      if tokens = [] then Inr text
      else
        (case find (\<lambda>t. \<not> memServer_hasAccess srv agent (credentialKey t)) tokens of
           Some t \<Rightarrow> Inl (authenticationFailed (''No access to '' @ credentialKey t))
         | None \<Rightarrow>
             (case memServer_credentialsMap parse srv tokens Map.empty of
                Inl e \<Rightarrow> Inl e
              | Inr m \<Rightarrow> substituteTokens text m)))"

text \<open>
  \<open>handleGrantAccess\<close> of this server stores one grant per credential id, with an expiry
  when \<open>duration_minutes > 0\<close> and a use bound when \<open>max_uses > 0\<close>. The two numbers are the
  arguments after their defaults (30 and 0) and are integers here. Every iteration draws an
  id and reads the clock twice, for \<open>grantedAt\<close> and for the expiry; the three values are
  passed in, one triple per credential id. \<open>toISOString\<close> throws \<open>RangeError\<close> for a time
  beyond 8.64e15 milliseconds from the epoch: the loop ends there and the grants stored so far
  stay. The result is the error thrown, if any, and the server afterwards; the message of
  the response is not modelled.
\<close>

fun memServer_handleGrantAccess ::
    "memServer \<Rightarrow> (string \<times> int \<times> int) list \<Rightarrow> string list \<Rightarrow> string \<Rightarrow> int \<Rightarrow> int \<Rightarrow> string
       \<Rightarrow> error option \<times> memServer" where
  "memServer_handleGrantAccess srv ((i, grantedNow, expiryNow) # gen) (credId # credential_ids)
       agent duration_minutes max_uses purpose' =
     (if 0 < duration_minutes
         \<and> 8640000000000000 < \<bar>expiryNow + duration_minutes * 60 * 1000\<bar>
      then (Some RangeError, srv)
      else
        memServer_handleGrantAccess
          (srv\<lparr>mem_grants := (mem_grants srv)(i \<mapsto>
               \<lparr>g_id = i, credentialId = Some credId, agentId = Some agent, purpose = purpose',
                grantedAt = grantedNow,
                expiresAt = (if 0 < duration_minutes
                             then Some (expiryNow + duration_minutes * 60 * 1000) else None),
                usesRemaining = (if 0 < max_uses then Some max_uses else None),
                isActive = True\<rparr>)\<rparr>)
          gen credential_ids agent duration_minutes max_uses purpose')"
| "memServer_handleGrantAccess srv _ _ agent duration_minutes max_uses purpose' = (None, srv)"

section \<open>The category server (Express endpoints)\<close>

text \<open>
  One category of the PII schema, as the schema file supplies it, and a vault item of an
  export request. The schema is \<open>None\<close> while it is not loaded. \<open>RegExp\<close> is the runtime's:
  \<open>regexTest pattern value\<close> stands for \<open>new RegExp(pattern).test(value)\<close>, false when
  the pattern does not compile.
\<close>

record category =
  cat_id :: string
  cat_name :: string
  cat_description :: string
  sensitivityLevel :: string
  pattern :: string
  patternDescription :: string
  maskFormat :: string
  allowExport :: bool
  fieldTypes :: "string list"

record item =
  categoryId :: string

definition findCategory :: "category list option \<Rightarrow> string \<Rightarrow> category option" where
  "findCategory piiSchema i =
     (case piiSchema of None \<Rightarrow> None | Some cats \<Rightarrow> find (\<lambda>c. cat_id c = i) cats)"

definition validatePattern ::
    "(string \<Rightarrow> string \<Rightarrow> bool) \<Rightarrow> category list option \<Rightarrow> string \<Rightarrow> string \<Rightarrow> bool" where
  "validatePattern regexTest piiSchema v i =
     (case findCategory piiSchema i of None \<Rightarrow> False | Some c \<Rightarrow> regexTest (pattern c) v)"

text \<open>
  The bodies the endpoints send. \<open>res.json(category)\<close> serialises the whole category object;
  the other bodies list their members.
\<close>

datatype response =
    ErrorBody nat string
  | CategoryBody category
  | ValidationFailedBody string category
  | AddedBody string string string string
  | ExportBlockedBody string "string list"
  | ExportedBody nat

text \<open>\<open>GET /api/category/:id\<close>.\<close>

definition getCategoryEndpoint :: "category list option \<Rightarrow> string \<Rightarrow> response" where
  "getCategoryEndpoint piiSchema i =
     (case piiSchema of
        None \<Rightarrow> ErrorBody 500 ''Schema not loaded''
      | Some cats \<Rightarrow>
          (case find (\<lambda>c. cat_id c = i) cats of
             None \<Rightarrow> ErrorBody 404 ''Category not found''
           | Some c \<Rightarrow> CategoryBody c))"

text \<open>
  \<open>POST /api/vault-item/add\<close>. A member of the request that is absent or empty is falsy;
  the request members are strings, empty when absent.
\<close>

definition addVaultItemEndpoint ::
    "(string \<Rightarrow> string \<Rightarrow> bool) \<Rightarrow> category list option
       \<Rightarrow> string \<Rightarrow> string \<Rightarrow> string \<Rightarrow> string \<Rightarrow> response" where
  "addVaultItemEndpoint regexTest piiSchema ns name i v =
     (if ns = [] \<or> name = [] \<or> i = [] \<or> v = [] then ErrorBody 400 ''Missing required fields''
      else
        (case findCategory piiSchema i of
           None \<Rightarrow> ErrorBody 404 ''Category not found''
         | Some c \<Rightarrow>
             if \<not> validatePattern regexTest piiSchema v i then
               ValidationFailedBody
                 (''Value does not match '' @ cat_name c @ '' pattern: '' @ patternDescription c) c
             else
               AddedBody (''[VAULT:'' @ ns @ '':'' @ name @ '']'') i (sensitivityLevel c)
                 (''Added '' @ cat_name c @ '' to vault'')))"

text \<open>The patterns a response body carries.\<close>

fun exposedPatterns :: "response \<Rightarrow> string list" where
  "exposedPatterns (CategoryBody c) = [pattern c]"
| "exposedPatterns (ValidationFailedBody msg c) = [pattern c]"
| "exposedPatterns _ = []"

text \<open>
  \<open>POST /api/vault/export\<close>. An item blocks when its category is found, is critical and has
  \<open>allowExport === false\<close>. The request may lack the item list.
\<close>

definition blocksExport :: "category list option \<Rightarrow> item \<Rightarrow> bool" where
  "blocksExport piiSchema it =
     (case findCategory piiSchema (categoryId it) of
        None \<Rightarrow> False
      | Some c \<Rightarrow> \<not> allowExport c \<and> sensitivityLevel c = ''critical'')"

definition blockedCategoriesList :: "string list" where
  "blockedCategoriesList =
     [''ssn'', ''credit_card'', ''api_key'', ''private_key'', ''database_password'']"

definition exportEndpoint :: "category list option \<Rightarrow> item list option \<Rightarrow> response" where
  "exportEndpoint piiSchema items =
     (if (case items of None \<Rightarrow> False | Some its \<Rightarrow> list_ex (blocksExport piiSchema) its)
      then ExportBlockedBody
             ''Cannot export vault containing critical PII (SSN, credit card, API keys, private keys)''
             blockedCategoriesList
      else ExportedBody (case items of None \<Rightarrow> 0 | Some its \<Rightarrow> length its))"

text \<open>
  The specification's list for a blocked export: the category identifiers of the items of the
  batch that block it.
\<close>

definition spec_blockingCategories :: "category list option \<Rightarrow> item list \<Rightarrow> string list" where
  "spec_blockingCategories piiSchema its = map categoryId (filter (blocksExport piiSchema) its)"

section \<open>The token grammar as the specification words it\<close>

text \<open>
  The specification gives the token syntax as \<open>[VAULT:\<close> + namespace + \<open>:\<close> + credential +
  (\<open>.\<close> + field)? + \<open>]\<close> with each name a non-empty word over alphanumerics, underscore and
  hyphen. \<open>spec_containsWellFormedToken\<close> says that such a token occurs somewhere in a text.
\<close>

definition validName :: "string \<Rightarrow> bool" where
  "validName n \<longleftrightarrow> n \<noteq> [] \<and> list_all isTokenChar n"

definition tokenText :: "string \<Rightarrow> string \<Rightarrow> string option \<Rightarrow> string" where
  "tokenText ns cred fld =
     ''[VAULT:'' @ ns @ '':'' @ cred @ (case fld of None \<Rightarrow> [] | Some f \<Rightarrow> CHR ''.'' # f) @ '']''"

definition validField :: "string option \<Rightarrow> bool" where
  "validField fld = (case fld of None \<Rightarrow> True | Some f \<Rightarrow> validName f)"

definition spec_containsWellFormedToken :: "string \<Rightarrow> bool" where
  "spec_containsWellFormedToken s \<longleftrightarrow>
     (\<exists>pre post ns cred fld. s = pre @ tokenText ns cred fld @ post
        \<and> validName ns \<and> validName cred \<and> validField fld)"

lemma sep_not_tokenChar [simp]:
  "\<not> isTokenChar CHR '':''" "\<not> isTokenChar CHR ''.''" "\<not> isTokenChar CHR '']''" "\<not> isTokenChar CHR ''[''"
  by (simp_all add: isTokenChar_def)

lemma takeWhile_name:
  "list_all isTokenChar n \<Longrightarrow> \<not> isTokenChar c \<Longrightarrow> takeWhile isTokenChar (n @ c # r) = n"
  by (induction n) auto

lemma dropWhile_name:
  "list_all isTokenChar n \<Longrightarrow> \<not> isTokenChar c \<Longrightarrow> dropWhile isTokenChar (n @ c # r) = c # r"
  by (induction n) auto

lemma stripPrefix_append [simp]: "stripPrefix p (p @ r) = Some r"
  by (simp add: stripPrefix_def)

lemma matchToken_tokenText:
  assumes "validName ns" "validName cred" "validField fld"
  shows "matchToken (tokenText ns cred fld @ post) =
           Some (\<lparr>raw = tokenText ns cred fld, namespace = ns, credential = cred, field = fld,
                  accessCount = 0\<rparr>, post)"
proof -
  have n: "ns \<noteq> []" "list_all isTokenChar ns" "cred \<noteq> []" "list_all isTokenChar cred"
    using assms by (simp_all add: validName_def)
  show ?thesis
  proof (cases fld)
    case None
    define s1 where "s1 = ns @ CHR '':'' # (cred @ CHR '']'' # post)"
    have sp: "stripPrefix ''[VAULT:'' (tokenText ns cred fld @ post) = Some s1"
      by (simp add: tokenText_def None stripPrefix_def s1_def)
    have t1: "takeWhile isTokenChar s1 = ns" "dropWhile isTokenChar s1 = CHR '':'' # (cred @ CHR '']'' # post)"
      unfolding s1_def using n by (simp_all add: takeWhile_name dropWhile_name)
    have t2: "takeWhile isTokenChar (cred @ CHR '']'' # post) = cred"
      "dropWhile isTokenChar (cred @ CHR '']'' # post) = CHR '']'' # post"
      using n by (simp_all add: takeWhile_name dropWhile_name)
    show ?thesis unfolding matchToken_def sp
      by (simp add: t1 t2 Let_def n None tokenText_def)
  next
    case (Some f)
    then have f: "f \<noteq> []" "list_all isTokenChar f"
      using assms by (simp_all add: validField_def validName_def)
    define s1 where "s1 = ns @ CHR '':'' # (cred @ CHR ''.'' # (f @ CHR '']'' # post))"
    have sp: "stripPrefix ''[VAULT:'' (tokenText ns cred fld @ post) = Some s1"
      by (simp add: tokenText_def Some stripPrefix_def s1_def)
    have t1: "takeWhile isTokenChar s1 = ns"
      "dropWhile isTokenChar s1 = CHR '':'' # (cred @ CHR ''.'' # (f @ CHR '']'' # post))"
      unfolding s1_def using n by (simp_all add: takeWhile_name dropWhile_name)
    have t2: "takeWhile isTokenChar (cred @ CHR ''.'' # (f @ CHR '']'' # post)) = cred"
      "dropWhile isTokenChar (cred @ CHR ''.'' # (f @ CHR '']'' # post)) = CHR ''.'' # (f @ CHR '']'' # post)"
      using n by (simp_all add: takeWhile_name dropWhile_name)
    have t3: "takeWhile isTokenChar (f @ CHR '']'' # post) = f"
      "dropWhile isTokenChar (f @ CHR '']'' # post) = CHR '']'' # post"
      using f by (simp_all add: takeWhile_name dropWhile_name)
    show ?thesis unfolding matchToken_def sp
      by (simp add: t1 t2 t3 Let_def n f Some tokenText_def)
  qed
qed

lemma list_all_takeWhile: "list_all P (takeWhile P xs)"
  by (induction xs) auto

lemma hd_tl_eq: "xs \<noteq> [] \<Longrightarrow> hd xs = c \<Longrightarrow> xs = c # tl xs"
  by (cases xs) auto

lemma matchToken_Some:
  assumes "matchToken s = Some (t, r)"
  shows "s = raw t @ r \<and> raw t = tokenText (namespace t) (credential t) (field t)
         \<and> validName (namespace t) \<and> validName (credential t) \<and> validField (field t) \<and> accessCount t = 0"
proof -
  from assms obtain s1 where s1: "stripPrefix ''[VAULT:'' s = Some s1"
    by (auto simp: matchToken_def split: option.splits)
  then have s: "s = ''[VAULT:'' @ s1" by (rule stripPrefix_Some)
  define ns where "ns = takeWhile isTokenChar s1"
  define s2 where "s2 = dropWhile isTokenChar s1"
  define cred where "cred = takeWhile isTokenChar (tl s2)"
  define s4 where "s4 = dropWhile isTokenChar (tl s2)"
  define fld where "fld = takeWhile isTokenChar (tl s4)"
  define s6 where "s6 = dropWhile isTokenChar (tl s4)"
  have e1: "s1 = ns @ s2" by (simp add: ns_def s2_def)
  have e3: "tl s2 = cred @ s4" by (simp add: cred_def s4_def)
  have e5: "tl s4 = fld @ s6" by (simp add: fld_def s6_def)
  have va: "list_all isTokenChar ns" "list_all isTokenChar cred" "list_all isTokenChar fld"
    by (simp_all add: ns_def cred_def fld_def list_all_takeWhile)
  from assms s1 have c1: "ns \<noteq> []" "s2 \<noteq> []" "hd s2 = CHR '':''" "cred \<noteq> []" "s4 \<noteq> []"
    by (auto simp: matchToken_def Let_def ns_def s2_def cred_def s4_def split: if_splits)
  have e2: "s2 = CHR '':'' # cred @ s4" using hd_tl_eq [OF c1(2) c1(3)] e3 by simp
  show ?thesis
  proof (cases "hd s4 = CHR ''.''")
    case True
    with assms s1 c1 have c2: "fld \<noteq> []" "s6 \<noteq> []" "hd s6 = CHR '']''"
      and t: "t = \<lparr>raw = ''[VAULT:'' @ ns @ '':'' @ cred @ ''.'' @ fld @ '']'',
                          namespace = ns, credential = cred, field = Some fld,
                          accessCount = 0\<rparr>" and r: "r = tl s6"
      by (auto simp: matchToken_def Let_def ns_def s2_def cred_def s4_def fld_def s6_def split: if_splits)
    have e4: "s4 = CHR ''.'' # fld @ s6" using hd_tl_eq [OF c1(5) True] e5 by simp
    have e6: "s6 = CHR '']'' # r" using hd_tl_eq [OF c2(2) c2(3)] r by simp
    show ?thesis using s e1 e2 e4 e6 va c1 c2
      by (simp add: t tokenText_def validName_def validField_def)
  next
    case False
    with assms s1 c1 have c2: "hd s4 = CHR '']''"
      and t: "t = \<lparr>raw = ''[VAULT:'' @ ns @ '':'' @ cred @ '']'',
                     namespace = ns, credential = cred, field = None,
                     accessCount = 0\<rparr>" and r: "r = tl s4"
      by (auto simp: matchToken_def Let_def ns_def s2_def cred_def s4_def split: if_splits)
    have e4: "s4 = CHR '']'' # r" using hd_tl_eq [OF c1(5) c2] r by simp
    show ?thesis using s e1 e2 e4 va c1
      by (simp add: t tokenText_def validName_def validField_def)
  qed
qed

lemma validate_imp_contains: "validateTokenFormat s \<Longrightarrow> spec_containsWellFormedToken s"
proof (induction s)
  case Nil
  then show ?case by simp
next
  case (Cons c cs)
  show ?case
  proof (cases "matchToken (c # cs)")
    case None
    with Cons have "spec_containsWellFormedToken cs" by simp
    then obtain pre post ns cred fld where "cs = pre @ tokenText ns cred fld @ post"
      "validName ns" "validName cred" "validField fld"
      by (auto simp: spec_containsWellFormedToken_def)
    then have "c # cs = (c # pre) @ tokenText ns cred fld @ post \<and> validName ns \<and> validName cred \<and> validField fld"
      by simp
    then show ?thesis unfolding spec_containsWellFormedToken_def by blast
  next
    case (Some p)
    obtain t r where "p = (t, r)" by (cases p)
    with Some have "c # cs = [] @ tokenText (namespace t) (credential t) (field t) @ r
       \<and> validName (namespace t) \<and> validName (credential t) \<and> validField (field t)"
      using matchToken_Some [of "c # cs" t r] by simp
    then show ?thesis unfolding spec_containsWellFormedToken_def by blast
  qed
qed

lemma tokenText_nonempty: "tokenText ns cred fld \<noteq> []"
  by (simp add: tokenText_def)

lemma contains_imp_validate:
  assumes "validName ns" "validName cred" "validField fld"
  shows "validateTokenFormat (pre @ tokenText ns cred fld @ post)"
proof (induction pre)
  case Nil
  obtain c cs where cc: "tokenText ns cred fld @ post = c # cs"
    using tokenText_nonempty [of ns cred fld] by (cases "tokenText ns cred fld @ post") auto
  have "matchToken (c # cs) \<noteq> None"
    using matchToken_tokenText [OF assms, of post] cc by simp
  then show ?case using cc by simp
next
  case (Cons a pre)
  then show ?case by simp
qed

text \<open>
  Claim C9. \<open>validateTokenFormat\<close> returns true exactly for the strings that contain a
  well-formed token \<open>[VAULT:namespace:credential(.field)?]\<close> somewhere as a substring: the
  pattern is not anchored, so any text may surround the token.
\<close>

theorem validateTokenFormat_unanchored: "validateTokenFormat s \<longleftrightarrow> spec_containsWellFormedToken s"
proof
  assume "validateTokenFormat s"
  then show "spec_containsWellFormedToken s" by (rule validate_imp_contains)
next
  assume "spec_containsWellFormedToken s"
  then obtain pre post ns cred fld where "s = pre @ tokenText ns cred fld @ post"
      "validName ns" "validName cred" "validField fld"
    unfolding spec_containsWellFormedToken_def by blast
  then show "validateTokenFormat s" using contains_imp_validate by simp
qed

theorem validateTokenFormat_unanchored_witness:
  "spec_containsWellFormedToken ''see [VAULT:personal:api_key] here''
   \<and> \<not> spec_containsWellFormedToken ''[VAULT:invalid]''"
proof -
  have "validateTokenFormat ''see [VAULT:personal:api_key] here''" by code_simp
  moreover have "\<not> validateTokenFormat ''[VAULT:invalid]''" by code_simp
  ultimately show ?thesis
    using validateTokenFormat_unanchored [of "''see [VAULT:personal:api_key] here''"]
      validateTokenFormat_unanchored [of "''[VAULT:invalid]''"]
    by simp
qed

section \<open>Substitution as simultaneous replacement\<close>

text \<open>
  The reference behaviour of substitution: every token occurrence gives way to the text
  \<open>w\<close> assigns to it, everything else is copied. \<open>onlyTokens\<close> holds of a text in which every
  opening bracket begins a well-formed token, \<open>containsMarker\<close> of a text in which the marker
  \<open>[VAULT:\<close> occurs. \<open>noPattern\<close> holds of a replacement text without any of the patterns
  \<open>$$\<close>, \<open>$&\<close>, \<open>$`\<close>, \<open>$'\<close> that \<open>replace\<close> expands, and \<open>plain\<close> of such a text without
  opening bracket.
\<close>

function spec_renderAll :: "(VaultToken \<Rightarrow> string) \<Rightarrow> string \<Rightarrow> string" where
  "spec_renderAll w [] = []"
| "spec_renderAll w (c # cs) =
     (case matchToken (c # cs) of
        Some (t, r) \<Rightarrow> w t @ spec_renderAll w r
      | None \<Rightarrow> c # spec_renderAll w cs)"
  by pat_completeness auto
termination
  by (relation "measure (\<lambda>(w, s). length s)") (auto dest: matchToken_shorter)

function onlyTokens :: "string \<Rightarrow> bool" where
  "onlyTokens [] = True"
| "onlyTokens (c # cs) =
     (case matchToken (c # cs) of
        Some (t, r) \<Rightarrow> onlyTokens r
      | None \<Rightarrow> c \<noteq> CHR ''['' \<and> onlyTokens cs)"
  by pat_completeness auto
termination
  by (relation "measure length") (auto dest: matchToken_shorter)

fun containsMarker :: "string \<Rightarrow> bool" where
  "containsMarker [] = False"
| "containsMarker (c # cs) = (prefix ''[VAULT:'' (c # cs) \<or> containsMarker cs)"

fun noPattern :: "string \<Rightarrow> bool" where
  "noPattern [] = True"
| "noPattern [c] = True"
| "noPattern (c # d # r) =
     (if c = CHR ''$'' \<and> (d = CHR ''$'' \<or> d = CHR ''&'' \<or> d = CHR 0x60 \<or> d = CHR 0x27)
      then False else noPattern (d # r))"

definition plain :: "string \<Rightarrow> bool" where
  "plain s \<longleftrightarrow> noPattern s \<and> CHR ''['' \<notin> set s"

lemma indexOfSplit_Some: "indexOfSplit p s = Some (b, a) \<Longrightarrow> s = b @ p @ a"
proof (induction s arbitrary: b)
  case Nil
  then show ?case by (simp split: if_splits)
next
  case (Cons c cs)
  show ?case
  proof (cases "prefix p (c # cs)")
    case True
    with Cons.prems show ?thesis by (auto simp: prefix_def)
  next
    case False
    with Cons.prems obtain b' where "indexOfSplit p cs = Some (b', a)" "b = c # b'"
      by auto
    with Cons.IH show ?thesis by simp
  qed
qed

lemma getSubstitution_noPattern: "noPattern s \<Longrightarrow> getSubstitution m b a s = s"
  by (induction m b a s rule: getSubstitution.induct) (auto split: if_splits)

lemma indexOfSplit_first:
  assumes "CHR ''['' \<notin> set d"
  shows "indexOfSplit (CHR ''['' # p) (d @ CHR ''['' # p @ r) = Some (d, r)"
  using assms by (induction d) auto

lemma raw_shape:
  assumes "matchToken s = Some (t, r)"
  shows "\<exists>p. raw t = CHR ''['' # p \<and> s = CHR ''['' # p @ r"
proof -
  from assms have "s = raw t @ r" "raw t = tokenText (namespace t) (credential t) (field t)"
    using matchToken_Some by blast+
  then show ?thesis by (auto simp: tokenText_def)
qed

lemma containsMarker_bracket: "containsMarker s \<Longrightarrow> CHR ''['' \<in> set s"
  by (induction s) auto

text \<open>A replacement value that is inserted as the text \<open>w\<close>, character for character.\<close>

definition plainText :: "jsvalue \<Rightarrow> string \<Rightarrow> bool" where
  "plainText v w \<longleftrightarrow> toStringJS v = Inr w \<and> \<not> callable v \<and> plain w"

lemma jsReplace_plain:
  assumes "plainText v w" "CHR ''['' \<notin> set d"
  shows "jsReplace (d @ CHR ''['' # p @ r) (CHR ''['' # p) v = Inr (d @ w @ r)"
  using assms
  by (simp add: jsReplace_def plainText_def plain_def indexOfSplit_first getSubstitution_noPattern)

lemma applySubstitutions_render:
  assumes "onlyTokens s" "CHR ''['' \<notin> set d"
    and "\<forall>t\<in>set (extractTokens s). plainText (v t) (w t)"
  shows "applySubstitutions (d @ s) (map (\<lambda>t. (raw t, v t)) (extractTokens s))
           = Inr (d @ spec_renderAll w s)"
  using assms
proof (induction s arbitrary: d rule: extractTokens.induct)
  case 1
  then show ?case by simp
next
  case (2 c cs)
  show ?case
  proof (cases "matchToken (c # cs)")
    case None
    with "2.prems" have c: "c \<noteq> CHR ''[''" and o: "onlyTokens cs"
      and v: "\<forall>t\<in>set (extractTokens cs). plainText (v t) (w t)"
      by simp_all
    have "applySubstitutions ((d @ [c]) @ cs) (map (\<lambda>t. (raw t, v t)) (extractTokens cs))
           = Inr ((d @ [c]) @ spec_renderAll w cs)"
      using "2.IH"(1) [OF None o _ v, of "d @ [c]"] c "2.prems"(2) by simp
    then show ?thesis using None by simp
  next
    case (Some q)
    obtain t r where q: "q = (t, r)" by (cases q)
    with Some have m: "matchToken (c # cs) = Some (t, r)" by simp
    from raw_shape [OF m] obtain p where p: "raw t = CHR ''['' # p" "c # cs = CHR ''['' # p @ r"
      by blast
    from "2.prems" m have o: "onlyTokens r"
      and vt: "plainText (v t) (w t)"
      and v: "\<forall>u\<in>set (extractTokens r). plainText (v u) (w u)"
      by simp_all
    from vt have nb: "CHR ''['' \<notin> set (d @ w t)"
      using "2.prems"(2) by (simp add: plainText_def plain_def)
    have step: "jsReplace (d @ c # cs) (raw t) (v t) = Inr (d @ w t @ r)"
      using jsReplace_plain [OF vt "2.prems"(2), of p r] p by simp
    have "applySubstitutions ((d @ w t) @ r) (map (\<lambda>t. (raw t, v t)) (extractTokens r))
           = Inr ((d @ w t) @ spec_renderAll w r)"
      using "2.IH"(2) [OF m refl o nb v] .
    then show ?thesis using m step by simp
  qed
qed

lemma resolveAll_map:
  "\<forall>t\<in>set ts. resolveToken t credentials = Inr (raw t, v t) \<Longrightarrow>
   resolveAll ts credentials = Inr (map (\<lambda>t. (raw t, v t)) ts)"
  by (induction ts) auto

lemma render_no_bracket:
  assumes "onlyTokens s" "\<forall>t\<in>set (extractTokens s). CHR ''['' \<notin> set (w t)"
  shows "CHR ''['' \<notin> set (spec_renderAll w s)"
  using assms
proof (induction s rule: extractTokens.induct)
  case 1
  then show ?case by simp
next
  case (2 c cs)
  show ?case
  proof (cases "matchToken (c # cs)")
    case None
    with "2.prems" have "c \<noteq> CHR ''[''" "onlyTokens cs"
      "\<forall>t\<in>set (extractTokens cs). CHR ''['' \<notin> set (w t)"
      by simp_all
    with "2.IH"(1) [OF None] None show ?thesis by simp
  next
    case (Some q)
    obtain t r where q: "q = (t, r)" by (cases q)
    with Some have m: "matchToken (c # cs) = Some (t, r)" by simp
    with "2.prems" have "onlyTokens r" "CHR ''['' \<notin> set (w t)"
      "\<forall>u\<in>set (extractTokens r). CHR ''['' \<notin> set (w u)"
      by simp_all
    with "2.IH"(2) [OF m refl] m show ?thesis by simp
  qed
qed

lemma substituteTokens_render:
  assumes "onlyTokens s"
    and "\<forall>t\<in>set (extractTokens s). resolveToken t credentials = Inr (raw t, v t) \<and> plainText (v t) (w t)"
  shows "substituteTokens s credentials = Inr (spec_renderAll w s)"
proof -
  have "resolveAll (extractTokens s) credentials = Inr (map (\<lambda>t. (raw t, v t)) (extractTokens s))"
    using assms(2) by (intro resolveAll_map) simp
  moreover have "applySubstitutions ([] @ s) (map (\<lambda>t. (raw t, v t)) (extractTokens s))
           = Inr ([] @ spec_renderAll w s)"
    using assms by (intro applySubstitutions_render) simp_all
  ultimately show ?thesis by (simp add: substituteTokens_def)
qed

lemma no_bracket_no_marker: "CHR ''['' \<notin> set s \<Longrightarrow> \<not> containsMarker s"
  using containsMarker_bracket by blast

text \<open>
  Where the text has no stray opening bracket and every token resolves to a plain string, the
  loop of replacements is the simultaneous replacement, and no marker is left.
\<close>

lemma substituteTokens_renders_plain_values:
  assumes "onlyTokens text"
    and "\<forall>t\<in>set (extractTokens text).
           resolveToken t credentials = Inr (raw t, Data (JString (w t))) \<and> plain (w t)"
  shows "substituteTokens text credentials = Inr (spec_renderAll w text)
         \<and> \<not> containsMarker (spec_renderAll w text)"
proof -
  have "\<forall>t\<in>set (extractTokens text).
          resolveToken t credentials = Inr (raw t, Data (JString (w t)))
          \<and> plainText (Data (JString (w t))) (w t)"
    using assms(2) by (simp add: plainText_def toStringJS_def callable_def)
  then have "substituteTokens text credentials = Inr (spec_renderAll w text)"
    using substituteTokens_render [OF assms(1), of credentials "\<lambda>t. Data (JString (w t))" w]
    by simp
  moreover have "CHR ''['' \<notin> set (spec_renderAll w text)"
    using assms by (intro render_no_bracket) (simp_all add: plain_def)
  ultimately show ?thesis using no_bracket_no_marker by simp
qed

text \<open>
  The structured credential \<open>personal:chase_login\<close> with the members username and password
  yields exactly \<open>m@x.com / p1\<close>.
\<close>

lemma substituteTokens_chase_login:
  "substituteTokens ''[VAULT:personal:chase_login.username] / [VAULT:personal:chase_login.password]''
     [''personal:chase_login'' \<mapsto>
        JObject [(''username'', JString ''m@x.com''), (''password'', JString ''p1'')]]
   = Inr ''m@x.com / p1'' \<and> \<not> containsMarker ''m@x.com / p1''"
proof -
  let ?text = "''[VAULT:personal:chase_login.username] / [VAULT:personal:chase_login.password]''"
  let ?creds = "[''personal:chase_login'' \<mapsto>
        JObject [(''username'', JString ''m@x.com''), (''password'', JString ''p1'')]]"
  let ?w = "\<lambda>t. if field t = Some ''username'' then ''m@x.com'' else ''p1''"
  have h1: "onlyTokens ?text" by code_simp
  have h2: "\<forall>t\<in>set (extractTokens ?text).
           resolveToken t ?creds = Inr (raw t, Data (JString (?w t))) \<and> plain (?w t)"
    by code_simp
  have r: "spec_renderAll ?w ?text = ''m@x.com / p1''" by code_simp
  show ?thesis
    using substituteTokens_renders_plain_values [OF h1 h2] r by simp
qed

text \<open>
  Claim C8. Substitution should replace every token occurrence with exactly its resolved
  value and leave no \<open>[VAULT:\<close> marker. \<open>substituteTokens\<close> hands the resolved value to
  \<open>replace\<close> as a replacement pattern: in a text whose only token resolves, the password
  \<open>pa$$word\<close> is written \<open>pa$word\<close>, and the value \<open>$&\<close> leaves the token, marker included,
  in the output.
\<close>

theorem substituteTokens_expands_dollar_patterns:
  "onlyTokens ''pw=[VAULT:personal:db]''
   \<and> resolveAll (extractTokens ''pw=[VAULT:personal:db]'') [''personal:db'' \<mapsto> JString ''pa$$word'']
       = Inr [(''[VAULT:personal:db]'', Data (JString ''pa$$word''))]
   \<and> substituteTokens ''pw=[VAULT:personal:db]'' [''personal:db'' \<mapsto> JString ''pa$$word'']
       = Inr ''pw=pa$word''
   \<and> resolveAll (extractTokens ''[VAULT:personal:tpl]'') [''personal:tpl'' \<mapsto> JString ''$&'']
       = Inr [(''[VAULT:personal:tpl]'', Data (JString ''$&''))]
   \<and> substituteTokens ''[VAULT:personal:tpl]'' [''personal:tpl'' \<mapsto> JString ''$&'']
       = Inr ''[VAULT:personal:tpl]''
   \<and> containsMarker ''[VAULT:personal:tpl]''"
  by code_simp











text \<open>
  Claim C7. A field selector against a credential that is not structured, or that lacks the
  named field, should fail with \<open>FIELD_NOT_FOUND\<close>. The operator \<open>in\<close> also accepts the
  members inherited from \<open>Object.prototype\<close>: the selector \<open>toString\<close> on an object with the
  single member username resolves to the inherited function, and the token is replaced by
  \<open>[object Undefined]\<close>. An empty string credential is reported as not found.
\<close>

theorem resolveToken_inherited_member:
  "resolveToken \<lparr>raw = ''[VAULT:personal:cred.toString]'', namespace = ''personal'',
       credential = ''cred'', field = Some ''toString'', accessCount = 0\<rparr>
     [''personal:cred'' \<mapsto> JObject [(''username'', JString ''test'')]]
     = Inr (''[VAULT:personal:cred.toString]'', Native ''toString'')
   \<and> substituteTokens ''[VAULT:personal:cred.toString]''
       [''personal:cred'' \<mapsto> JObject [(''username'', JString ''test'')]]
     = Inr ''[object Undefined]''
   \<and> substituteTokens ''[VAULT:personal:pin.ssn]'' [''personal:pin'' \<mapsto> JString '''']
     = Inl (credentialNotFound ''personal:pin'')"
  by code_simp

text \<open>
  The error is raised for every truthy credential that is not an object, and for every object
  in which the name is neither an own nor an inherited member.
\<close>

lemma resolveToken_field_not_found:
  assumes "selector tok = Some f" "credentials (credentialKey tok) = Some cred" "truthy cred"
    and "\<forall>ms. cred = JObject ms \<longrightarrow> map_of ms f = None \<and> f \<notin> set objectPrototypeMembers"
  shows "resolveToken tok credentials = Inl (fieldNotFound f (credentialKey tok))"
  using assms by (cases cred) (auto simp: resolveToken_def hasProperty_def)

section \<open>Access checks of the servers\<close>

text \<open>Example data: a stored credential, and a payload text in double quotes.\<close>

definition cred1 :: Credential where
  "cred1 = \<lparr>cred_id = ''c1'', cred_namespace = ''personal'', cred_name = ''api_key'',
     cred_type = ''simple'', cred_description = '''', cred_sensitivityLevel = ''high'',
     encryptedData = ''PAYLOAD'', encryptionKeyId = ''default'',
     cred_createdAt = ''t0'', cred_updatedAt = ''t0''\<rparr>"

definition quoted :: "string \<Rightarrow> string" where
  "quoted s = CHR 0x22 # s @ [CHR 0x22]"

lemma find_first:
  "\<exists>x\<in>set xs. P x \<Longrightarrow> \<exists>x. find P xs = Some x \<and> P x \<and> x \<in> set xs"
  by (induction xs) auto

lemma first_denied_throws:
  assumes "\<exists>t\<in>set (extractTokens text). \<not> dbServer_hasAccess db agent (credentialKey t)"
  shows "\<exists>t\<in>set (extractTokens text). \<not> dbServer_hasAccess db agent (credentialKey t)
           \<and> dbServer_handleTokenSubstitution parse db text agent
               = Inl (authenticationFailed (''No access to '' @ credentialKey t))"
proof -
  from find_first [OF assms] obtain t
    where t: "find (\<lambda>t. \<not> dbServer_hasAccess db agent (credentialKey t)) (extractTokens text) = Some t"
      "\<not> dbServer_hasAccess db agent (credentialKey t)" "t \<in> set (extractTokens text)"
    by blast
  then have ne: "extractTokens text \<noteq> []" by auto
  have "dbServer_handleTokenSubstitution parse db text agent
               = Inl (authenticationFailed (''No access to '' @ credentialKey t))"
    using t(1) ne by (simp add: dbServer_handleTokenSubstitution_def)
  with t show ?thesis by blast
qed

text \<open>
  Claim C6. When the text of a substitution request contains a token for which the access
  check of the caller is denied, the whole request fails with the authentication error
  naming the key of a denied token (the first one); no text, and so no substituted value
  of any other token, is returned. The in-memory server never denies a check.
\<close>

theorem denied_token_fails_whole_request:
  assumes "\<exists>t\<in>set (extractTokens text). \<not> dbServer_hasAccess db agent (credentialKey t)"
  shows "\<exists>t\<in>set (extractTokens text). \<not> dbServer_hasAccess db agent (credentialKey t)
           \<and> dbServer_handleTokenSubstitution parse db text agent
               = Inl (authenticationFailed (''No access to '' @ credentialKey t))"
  using assms by (rule first_denied_throws)

theorem denied_token_fails_whole_request_witness:
  "dbServer_handleTokenSubstitution (\<lambda>s. Inr (JString ''s3cret''))
   \<lparr>db_credentials = [\<lparr>cred_id = ''c1'', cred_namespace = ''personal'', cred_name = ''api_key'',
     cred_type = ''simple'', cred_description = '''', cred_sensitivityLevel = ''high'',
     encryptedData = ''PAYLOAD'', encryptionKeyId = ''default'',
     cred_createdAt = ''t0'', cred_updatedAt = ''t0''\<rparr>,
     \<lparr>cred_id = ''c2'', cred_namespace = ''personal'', cred_name = ''other'',
     cred_type = ''simple'', cred_description = '''', cred_sensitivityLevel = ''high'',
     encryptedData = ''PAYLOAD'', encryptionKeyId = ''default'',
     cred_createdAt = ''t0'', cred_updatedAt = ''t0''\<rparr>],
    db_access_grants = [\<lparr>grant_id = ''g1'', credential_id = Some ''c1'', agent_id = Some ''grant'',
       uses_remaining = None, is_active = 1, created_at = ''t1''\<rparr>]\<rparr>
   ''[VAULT:personal:api_key] and [VAULT:personal:other]'' ''grant''
   = Inl (VaultError ''No access to personal:other'' ''AUTH_FAILED'')"
proof -
  let ?db = "\<lparr>db_credentials = [\<lparr>cred_id = ''c1'', cred_namespace = ''personal'', cred_name = ''api_key'',
     cred_type = ''simple'', cred_description = '''', cred_sensitivityLevel = ''high'',
     encryptedData = ''PAYLOAD'', encryptionKeyId = ''default'',
     cred_createdAt = ''t0'', cred_updatedAt = ''t0''\<rparr>,
     \<lparr>cred_id = ''c2'', cred_namespace = ''personal'', cred_name = ''other'',
     cred_type = ''simple'', cred_description = '''', cred_sensitivityLevel = ''high'',
     encryptedData = ''PAYLOAD'', encryptionKeyId = ''default'',
     cred_createdAt = ''t0'', cred_updatedAt = ''t0''\<rparr>],
    db_access_grants = [\<lparr>grant_id = ''g1'', credential_id = Some ''c1'', agent_id = Some ''grant'',
       uses_remaining = None, is_active = 1, created_at = ''t1''\<rparr>]\<rparr>"
  let ?text = "''[VAULT:personal:api_key] and [VAULT:personal:other]''"
  have h: "\<exists>t\<in>set (extractTokens ?text). \<not> dbServer_hasAccess ?db ''grant'' (credentialKey t)"
    by code_simp
  have keys: "\<forall>t\<in>set (extractTokens ?text).
      \<not> dbServer_hasAccess ?db ''grant'' (credentialKey t) \<longrightarrow> credentialKey t = ''personal:other''"
    by code_simp
  from denied_token_fails_whole_request [OF h, of "\<lambda>s. Inr (JString ''s3cret'')"]
  obtain t where t: "t \<in> set (extractTokens ?text)"
      "\<not> dbServer_hasAccess ?db ''grant'' (credentialKey t)"
      "dbServer_handleTokenSubstitution (\<lambda>s. Inr (JString ''s3cret'')) ?db ?text ''grant''
         = Inl (authenticationFailed (''No access to '' @ credentialKey t))"
    by blast
  from keys t(1,2) have "credentialKey t = ''personal:other''" by blast
  with t(3) show ?thesis by (simp add: authenticationFailed_def)
qed

text \<open>
  The server backed by the database denies by default: a caller without an active row in the
  grant table gets the authentication error for every text that contains a token.
\<close>

lemma dbServer_denies_without_grant:
  assumes "extractTokens text \<noteq> []"
    and "\<forall>g\<in>set (db_access_grants db). agent_id g \<noteq> Some agent \<or> is_active g \<noteq> 1"
  shows "\<exists>k. dbServer_handleTokenSubstitution parse db text agent
               = Inl (authenticationFailed (''No access to '' @ k))"
proof -
  have "filter (\<lambda>g. agent_id g = Some agent \<and> credential_id g = Some c \<and> is_active g = 1)
          (db_access_grants db) = []" for c
    using assms(2) by (auto simp: filter_empty_conv)
  then have "\<not> dbServer_hasAccess db agent k" for k
    by (auto simp: dbServer_hasAccess_def VaultDB_hasAccess_def split: list.splits option.splits)
  moreover obtain t where "t \<in> set (extractTokens text)"
    using assms(1) by (cases "extractTokens text") auto
  ultimately have "\<exists>t\<in>set (extractTokens text). \<not> dbServer_hasAccess db agent (credentialKey t)"
    by blast
  from first_denied_throws [OF this, of parse] show ?thesis by blast
qed

text \<open>
  Claim C1. A caller without an active grant must never receive a credential's value. The
  in-memory server answers every access check with true: with an empty grant table the
  caller \<open>mallory\<close> receives the value of \<open>personal:api_key\<close>.
\<close>

theorem memServer_substitutes_without_grant:
  "mem_grants \<lparr>mem_credentials = [''personal:api_key'' \<mapsto>
          \<lparr>cred_id = ''c1'', cred_namespace = ''personal'', cred_name = ''api_key'',
            cred_type = ''simple'', cred_description = '''', cred_sensitivityLevel = ''high'',
            encryptedData = quoted ''s3cret'', encryptionKeyId = ''default'',
            cred_createdAt = ''t0'', cred_updatedAt = ''t0''\<rparr>],
        mem_grants = Map.empty\<rparr> = Map.empty
   \<and> memServer_handleTokenSubstitution
       (\<lambda>s. if s = quoted ''s3cret'' then Inr (JString ''s3cret'') else Inl SyntaxError)
       \<lparr>mem_credentials = [''personal:api_key'' \<mapsto>
          \<lparr>cred_id = ''c1'', cred_namespace = ''personal'', cred_name = ''api_key'',
            cred_type = ''simple'', cred_description = '''', cred_sensitivityLevel = ''high'',
            encryptedData = quoted ''s3cret'', encryptionKeyId = ''default'',
            cred_createdAt = ''t0'', cred_updatedAt = ''t0''\<rparr>],
        mem_grants = Map.empty\<rparr>
       ''key: [VAULT:personal:api_key]'' ''mallory''
     = Inr ''key: s3cret''"
proof -
  have "memServer_handleTokenSubstitution
       (\<lambda>s. if s = quoted ''s3cret'' then Inr (JString ''s3cret'') else Inl SyntaxError)
       \<lparr>mem_credentials = [''personal:api_key'' \<mapsto>
          \<lparr>cred_id = ''c1'', cred_namespace = ''personal'', cred_name = ''api_key'',
            cred_type = ''simple'', cred_description = '''', cred_sensitivityLevel = ''high'',
            encryptedData = quoted ''s3cret'', encryptionKeyId = ''default'',
            cred_createdAt = ''t0'', cred_updatedAt = ''t0''\<rparr>],
        mem_grants = Map.empty\<rparr>
       ''key: [VAULT:personal:api_key]'' ''mallory''
     = Inr ''key: s3cret''"
    by code_simp
  then show ?thesis by simp
qed

text \<open>
  Claim C2. A grant created with a single use should pass exactly one access check. The
  check of the grant table counts active rows and writes nothing: the grant with
  \<open>uses_remaining = 1\<close> passes the check, the table after the check is the table before it,
  and the check that follows passes again. The in-memory server stores the bound of
  \<open>max_uses = 1\<close> and allows every check.
\<close>

theorem single_use_grant_passes_twice:
  "createGrant \<lparr>db_credentials = [cred1], db_access_grants = []\<rparr>
      \<lparr>g_id = ''g1'', credentialId = Some ''c1'', agentId = Some ''grant'',
             purpose = ''test'', grantedAt = 1000, expiresAt = None, usesRemaining = Some 1,
             isActive = True\<rparr> ''t1''
     = Inr \<lparr>db_credentials = [cred1],
      db_access_grants = [\<lparr>grant_id = ''g1'', credential_id = Some ''c1'', agent_id = Some ''grant'',
         uses_remaining = Some 1, is_active = 1, created_at = ''t1''\<rparr>]\<rparr>
   \<and> VaultDB_hasAccess \<lparr>db_credentials = [cred1],
      db_access_grants = [\<lparr>grant_id = ''g1'', credential_id = Some ''c1'', agent_id = Some ''grant'',
         uses_remaining = Some 1, is_active = 1, created_at = ''t1''\<rparr>]\<rparr> ''grant'' ''c1''
     = (True, \<lparr>db_credentials = [cred1],
      db_access_grants = [\<lparr>grant_id = ''g1'', credential_id = Some ''c1'', agent_id = Some ''grant'',
         uses_remaining = Some 1, is_active = 1, created_at = ''t1''\<rparr>]\<rparr>)
   \<and> fst (VaultDB_hasAccess (snd (VaultDB_hasAccess \<lparr>db_credentials = [cred1],
      db_access_grants = [\<lparr>grant_id = ''g1'', credential_id = Some ''c1'', agent_id = Some ''grant'',
         uses_remaining = Some 1, is_active = 1, created_at = ''t1''\<rparr>]\<rparr> ''grant'' ''c1''))
        ''grant'' ''c1'')
   \<and> fst (memServer_handleGrantAccess \<lparr>mem_credentials = Map.empty, mem_grants = Map.empty\<rparr>
          [(''g1'', 1000, 1000)] [''personal:api_key''] ''grant'' 30 1 ''test'') = None
   \<and> map_option usesRemaining
        (mem_grants (snd (memServer_handleGrantAccess
          \<lparr>mem_credentials = Map.empty, mem_grants = Map.empty\<rparr>
          [(''g1'', 1000, 1000)] [''personal:api_key''] ''grant'' 30 1 ''test'')) ''g1'')
       = Some (Some 1)
   \<and> memServer_hasAccess (snd (memServer_handleGrantAccess
          \<lparr>mem_credentials = Map.empty, mem_grants = Map.empty\<rparr>
          [(''g1'', 1000, 1000)] [''personal:api_key''] ''grant'' 30 1 ''test''))
        ''grant'' ''personal:api_key''"
  by (simp add: createGrant_def VaultDB_hasAccess_def cred1_def memServer_hasAccess_def)

text \<open>
  Claim C3. A grant past its expiry should be denied. The in-memory server computes the
  expiry (1000 + 30 minutes = 1801000) and stores it, and its access check, which reads no
  clock, allows the agent at every later time. The grant table has no column for the expiry:
  a grant object that expired at 2000 is stored without it and passes the check.
\<close>

theorem expired_grant_still_allowed:
  "fst (memServer_handleGrantAccess \<lparr>mem_credentials = Map.empty, mem_grants = Map.empty\<rparr>
          [(''g1'', 1000, 1000)] [''personal:api_key''] ''grant'' 30 0 ''test'') = None
   \<and> map_option expiresAt
        (mem_grants (snd (memServer_handleGrantAccess
          \<lparr>mem_credentials = Map.empty, mem_grants = Map.empty\<rparr>
          [(''g1'', 1000, 1000)] [''personal:api_key''] ''grant'' 30 0 ''test'')) ''g1'')
       = Some (Some 1801000)
   \<and> memServer_hasAccess (snd (memServer_handleGrantAccess
          \<lparr>mem_credentials = Map.empty, mem_grants = Map.empty\<rparr>
          [(''g1'', 1000, 1000)] [''personal:api_key''] ''grant'' 30 0 ''test''))
        ''grant'' ''personal:api_key''
   \<and> createGrant \<lparr>db_credentials = [cred1], db_access_grants = []\<rparr>
      \<lparr>g_id = ''g1'', credentialId = Some ''c1'', agentId = Some ''grant'',
             purpose = ''test'', grantedAt = 1000, expiresAt = Some 2000, usesRemaining = Some 3,
             isActive = True\<rparr> ''t1''
     = Inr \<lparr>db_credentials = [cred1],
      db_access_grants = [\<lparr>grant_id = ''g1'', credential_id = Some ''c1'', agent_id = Some ''grant'',
         uses_remaining = Some 3, is_active = 1, created_at = ''t1''\<rparr>]\<rparr>
   \<and> fst (VaultDB_hasAccess \<lparr>db_credentials = [cred1],
      db_access_grants = [\<lparr>grant_id = ''g1'', credential_id = Some ''c1'', agent_id = Some ''grant'',
         uses_remaining = Some 3, is_active = 1, created_at = ''t1''\<rparr>]\<rparr> ''grant'' ''c1'')"
  by (simp add: createGrant_def VaultDB_hasAccess_def cred1_def memServer_hasAccess_def)

text \<open>
  The one condition the check of the grant table does enforce is the active flag: a pair
  whose rows are all inactive is denied.
\<close>

lemma inactive_grant_denied:
  assumes "\<forall>g\<in>set (db_access_grants db). agent_id g = Some a \<and> credential_id g = Some c
             \<longrightarrow> is_active g \<noteq> 1"
  shows "VaultDB_hasAccess db a c = (False, db)"
proof -
  have "filter (\<lambda>g. agent_id g = Some a \<and> credential_id g = Some c \<and> is_active g = 1)
          (db_access_grants db) = []"
    using assms by (auto simp: filter_empty_conv)
  then show ?thesis by (simp add: VaultDB_hasAccess_def)
qed

text \<open>The time limit of a grant is checked where it is built: beyond the range of dates
  no grant is stored.\<close>

lemma handleGrantAccess_out_of_range:
  "memServer_handleGrantAccess srv [(''g1'', 1000, 1000)] [''personal:api_key''] ''grant''
     200000000000 0 ''test'' = (Some RangeError, srv)"
  by simp

section \<open>Export and category responses\<close>

text \<open>
  Example data: two categories of the schema.
\<close>

definition ssnCategory :: category where
  "ssnCategory = \<lparr>cat_id = ''ssn'', cat_name = ''Social Security Number'',
     cat_description = ''US SSN'', sensitivityLevel = ''critical'',
     pattern = ''^[0-9]{3}-[0-9]{2}-[0-9]{4}$'',
     patternDescription = ''3-digit-2-digit-4-digit format'', maskFormat = ''XXX-XX-****'',
     allowExport = False, fieldTypes = [''ssn'', ''social_security_number'']\<rparr>"

definition emailCategory :: category where
  "emailCategory = \<lparr>cat_id = ''email'', cat_name = ''Email Address'',
     cat_description = ''Email'', sensitivityLevel = ''medium'',
     pattern = ''^[^@]+@[^@]+$'',
     patternDescription = ''name@domain'', maskFormat = ''***@***'',
     allowExport = True, fieldTypes = [''email'']\<rparr>"

text \<open>
  Claim C4, as amended. An export batch with at least one critical, export-disallowed item
  is rejected as a whole, and the error carries the fixed list ssn, credit_card, api_key,
  private_key, database_password, whichever items block.
\<close>

theorem blocked_export_rejects_batch_with_fixed_list:
  assumes "list_ex (blocksExport piiSchema) its"
  shows "exportEndpoint piiSchema (Some its)
           = ExportBlockedBody
               ''Cannot export vault containing critical PII (SSN, credit card, API keys, private keys)''
               [''ssn'', ''credit_card'', ''api_key'', ''private_key'', ''database_password'']"
  using assms by (simp add: exportEndpoint_def blockedCategoriesList_def)

theorem blocked_export_rejects_batch_with_fixed_list_witness:
  "exportEndpoint (Some [ssnCategory, emailCategory])
      (Some [\<lparr>categoryId = ''email''\<rparr>, \<lparr>categoryId = ''ssn''\<rparr>, \<lparr>categoryId = ''email''\<rparr>])
   = ExportBlockedBody
       ''Cannot export vault containing critical PII (SSN, credit card, API keys, private keys)''
       [''ssn'', ''credit_card'', ''api_key'', ''private_key'', ''database_password'']"
proof -
  have h: "list_ex (blocksExport (Some [ssnCategory, emailCategory]))
      [\<lparr>categoryId = ''email''\<rparr>, \<lparr>categoryId = ''ssn''\<rparr>, \<lparr>categoryId = ''email''\<rparr>]"
    by (simp add: blocksExport_def findCategory_def ssnCategory_def emailCategory_def)
  show ?thesis
    using blocked_export_rejects_batch_with_fixed_list [OF h] .
qed

text \<open>
  The fixed list differs from the identifiers of the blocking items of the batch.
\<close>

theorem blocked_export_list_counterexample:
  "list_ex (blocksExport (Some [ssnCategory, emailCategory]))
      [\<lparr>categoryId = ''email''\<rparr>, \<lparr>categoryId = ''ssn''\<rparr>]
   \<and> spec_blockingCategories (Some [ssnCategory, emailCategory])
        [\<lparr>categoryId = ''email''\<rparr>, \<lparr>categoryId = ''ssn''\<rparr>] = [''ssn'']
   \<and> exportEndpoint (Some [ssnCategory, emailCategory])
        (Some [\<lparr>categoryId = ''email''\<rparr>, \<lparr>categoryId = ''ssn''\<rparr>])
      = ExportBlockedBody
         ''Cannot export vault containing critical PII (SSN, credit card, API keys, private keys)''
         [''ssn'', ''credit_card'', ''api_key'', ''private_key'', ''database_password'']
   \<and> [''ssn'', ''credit_card'', ''api_key'', ''private_key'', ''database_password'']
        \<noteq> spec_blockingCategories (Some [ssnCategory, emailCategory])
            [\<lparr>categoryId = ''email''\<rparr>, \<lparr>categoryId = ''ssn''\<rparr>]"
  by (simp add: blocksExport_def findCategory_def ssnCategory_def emailCategory_def
        spec_blockingCategories_def exportEndpoint_def blockedCategoriesList_def)

text \<open>
  Claim C5. No response may carry the validation pattern of a category. Both the category
  endpoint and the failed validation of an added item send the whole category object, the
  pattern included.
\<close>

theorem category_responses_expose_pattern:
  "getCategoryEndpoint (Some [ssnCategory, emailCategory]) ''ssn'' = CategoryBody ssnCategory
   \<and> exposedPatterns (getCategoryEndpoint (Some [ssnCategory, emailCategory]) ''ssn'')
       = [''^[0-9]{3}-[0-9]{2}-[0-9]{4}$'']
   \<and> addVaultItemEndpoint (\<lambda>p v. v = ''123-45-6789'') (Some [ssnCategory, emailCategory])
        ''personal'' ''my_ssn'' ''ssn'' ''12345''
       = ValidationFailedBody
          ''Value does not match Social Security Number pattern: 3-digit-2-digit-4-digit format''
          ssnCategory
   \<and> exposedPatterns (addVaultItemEndpoint (\<lambda>p v. v = ''123-45-6789'')
        (Some [ssnCategory, emailCategory]) ''personal'' ''my_ssn'' ''ssn'' ''12345'')
       = [''^[0-9]{3}-[0-9]{2}-[0-9]{4}$'']"
  by (simp add: getCategoryEndpoint_def addVaultItemEndpoint_def validatePattern_def
        findCategory_def ssnCategory_def emailCategory_def)

end
